theory Spec2Isabelle
  imports Main
begin

section \<open>The BASIC execution engine of \<open>basic.js\<close>\<close>

text \<open>
  The class \<open>Basic\<close> is embedded as a record of its fields with explicit state passing:
  every method takes the engine and returns the engine it leaves behind. Exceptions are
  values of a sum type, the run loop is recursion on a step budget, and the promise that
  \<open>run\<close> returns is a field that is settled at most once.

  Conventions of the embedding:
  \<^item> JavaScript numbers are integers (\<open>int\<close>); floating point is outside the model,
    except for the one \<open>NaN\<close> that \<open>loopJump\<close> can produce.
  \<^item> \<open>this.variables\<close> and \<open>this.loops\<close> are plain objects: the maps hold their own
    properties, and a read of a name that is no own property finds the members the
    objects inherit from \<open>Object.prototype\<close>. The name \<open>__proto__\<close> is no property key
    of such an object (assigning it goes to the prototype accessor): writes under that
    name are outside the model. A \<open>BasicArray\<close> is the list of its own properties in
    insertion order; an array subscript is the property key JavaScript derives from it.
    Values are stored by value, so two variables never share one array object.
  \<^item> \<open>this.lineno\<close> is a number or, after \<open>goto(undefined)\<close>, undefined: the field
    \<open>lineno\<close> holds the number and \<open>lineno_undefined\<close> says that the cursor is undefined.
    In that case \<open>lineno\<close> keeps its last number and is not read as a line; an error
    built in that state carries that field where the code's error carries undefined.
  \<^item> The parser and the statement nodes are collaborators outside \<open>basic.js\<close>. The
    parser is a parameter of \<open>run\<close>; a node is its line number together with the
    sequence of engine calls its \<open>run\<close> makes, and a \<open>Throw\<close> stands for any
    exception the statement raises itself.
  \<^item> \<open>debug\<close> only writes to the host console and is left out. Characters are single
    bytes, and the pictographs at the end of two error messages are left out.
  \<^item> The field \<open>trace\<close> is instrumentation: it records the line number of every node
    whose \<open>run\<close> has been invoked, in order.
\<close>

subsection \<open>Values, errors and statement nodes\<close>

datatype error =
    ParseError int string
  | RuntimeError int string
  | TypeError string

text \<open>
  \<open>Native name\<close> is the object a plain object inherits under \<open>name\<close> from
  \<open>Object.prototype\<close>: a built-in function, or the prototype itself for \<open>__proto__\<close>.
\<close>

datatype val =
    Num int
  | NaN
  | Str string
  | Bool bool
  | Undefined
  | Arr "(string \<times> val) list"
  | Native string


text \<open>
  Modelled from the spec: the statement nodes are built by the parser, which is not part
  of \<open>basic.js\<close>. By the statement contract a node carries a line number and a \<open>run\<close>
  operation that calls engine operations and may throw. A node is taken as its line
  number and the sequence of calls its \<open>run\<close> makes, with the argument values the
  statement has computed for them.
\<close>

datatype op =
    Set string val
  | SetArray string string val
  | Array string
  | Pause int
  | Goto int
  | LoopStart string int int int
  | LoopJump string
  | Gosub int
  | Return
  | Print string
  | Halt
  | End "error option"
  | Throw error

record node =
  node_lineno :: int
  node_run :: "op list"

record loop =
  loop_variable :: string
  loop_value :: int
  loop_increment :: int
  loop_max :: int
  loop_lineno :: int

text \<open>The promise of \<open>run\<close>: \<open>resolve\<close> and \<open>reject\<close> only act on a pending promise.\<close>

datatype outcome = Pending | Resolved | Rejected error

fun resolve :: "outcome \<Rightarrow> outcome" where
  "resolve Pending = Resolved"
| "resolve out = out"

fun reject :: "error \<Rightarrow> outcome \<Rightarrow> outcome" where
  "reject e Pending = Rejected e"
| "reject e out = out"

record engine =
  variables :: "string \<Rightarrow> val option"
  lineno :: int
  lineno_undefined :: bool
  program :: "node list"
  loops :: "string \<Rightarrow> loop option"
  stack :: "int list"
  jumped :: bool
  ended :: bool
  halted :: bool
  delay :: "int option"
  onEnd :: outcome
  console :: "string list"
  trace :: "int list"

text \<open>The constructor; \<open>ended\<close>, \<open>halted\<close> and \<open>delay\<close> start out undefined, which is falsy.\<close>

definition new_engine :: engine where
  "new_engine =
     \<lparr>variables = Map.empty, lineno = -1, lineno_undefined = False, program = [], loops = Map.empty, stack = [],
      jumped = False, ended = False, halted = False, delay = None, onEnd = Pending,
      console = [], trace = []\<rparr>"

subsection \<open>Decimal rendering of line numbers in messages\<close>

fun show_nat :: "nat \<Rightarrow> string" where
  "show_nat n =
     (if n < 10 then [''0123456789'' ! n]
      else show_nat (n div 10) @ [''0123456789'' ! (n mod 10)])"

declare show_nat.simps [simp del]

definition show_int :: "int \<Rightarrow> string" where
  "show_int i = (if i < 0 then CHR ''-'' # show_nat (nat (- i)) else show_nat (nat i))"

subsection \<open>Termination protocol and the variable environment\<close>

definition end_run :: "error option \<Rightarrow> engine \<Rightarrow> engine" where
  "end_run err eng =
     (case err of
        Some e \<Rightarrow> eng\<lparr>ended := True, onEnd := reject e (onEnd eng)\<rparr>
      | None \<Rightarrow> eng\<lparr>ended := True, onEnd := resolve (onEnd eng)\<rparr>)"

text \<open>
  The names of the members of \<open>Object.prototype\<close>, which every plain object inherits.
\<close>

definition object_prototype_names :: "string list" where
  "object_prototype_names =
     [''constructor'', ''__defineGetter__'', ''__defineSetter__'', ''hasOwnProperty'',
      ''__lookupGetter__'', ''__lookupSetter__'', ''isPrototypeOf'',
      ''propertyIsEnumerable'', ''toString'', ''valueOf'', ''__proto__'',
      ''toLocaleString'']"

text \<open>Assigning a property of an object: overwrite it in place, or add it at the end.\<close>

fun assign :: "string \<Rightarrow> val \<Rightarrow> (string \<times> val) list \<Rightarrow> (string \<times> val) list" where
  "assign k v [] = [(k, v)]"
| "assign k v (p # ps) = (if fst p = k then (k, v) # ps else p # assign k v ps)"

definition set_var :: "string \<Rightarrow> val \<Rightarrow> engine \<Rightarrow> engine" where
  "set_var vari v eng = eng\<lparr>variables := (variables eng)(vari \<mapsto> v)\<rparr>"

definition setArray :: "string \<Rightarrow> string \<Rightarrow> val \<Rightarrow> engine \<Rightarrow> engine" where
  "setArray vari sub v eng =
     (case variables eng vari of
        Some (Arr a) \<Rightarrow> eng\<lparr>variables := (variables eng)(vari \<mapsto> Arr (assign sub v a))\<rparr>
      | _ \<Rightarrow> end_run (Some (RuntimeError (lineno eng)
                 (vari @ '' is not an array, did you call ARRAY?''))) eng)"

definition array :: "string \<Rightarrow> engine \<Rightarrow> engine" where
  "array name eng = eng\<lparr>variables := (variables eng)(name \<mapsto> Arr [])\<rparr>"



definition pause :: "int \<Rightarrow> engine \<Rightarrow> engine" where
  "pause millis eng = eng\<lparr>delay := Some millis\<rparr>"

definition print :: "string \<Rightarrow> engine \<Rightarrow> engine" where
  "print s eng = eng\<lparr>console := console eng @ [s]\<rparr>"

definition halt :: "engine \<Rightarrow> engine" where
  "halt eng = eng\<lparr>halted := True\<rparr>"

subsection \<open>The program store\<close>

text \<open>No node's line number is strictly equal to an undefined cursor.\<close>

definition getCurLine :: "engine \<Rightarrow> node option" where
  "getCurLine eng =
     (if lineno_undefined eng then None
      else find (\<lambda>n. node_lineno n = lineno eng) (program eng))"

text \<open>
  \<open>Array.prototype.indexOf\<close>: the first position of the element, \<open>-1\<close> when absent.
  It is only applied to the node \<open>find\<close> returned, the first one with the current line
  number, so comparing nodes by value finds the same position as comparing objects.
\<close>

fun indexOf :: "'a list \<Rightarrow> 'a \<Rightarrow> int" where
  "indexOf [] x = -1"
| "indexOf (y # ys) x =
     (if y = x then 0 else (let i = indexOf ys x in if i < 0 then -1 else i + 1))"

text \<open>Indexing an array: \<open>undefined\<close> (here \<open>None\<close>) outside its bounds.\<close>

definition at :: "'a list \<Rightarrow> int \<Rightarrow> 'a option" where
  "at xs i = (if 0 \<le> i \<and> i < int (length xs) then Some (xs ! nat i) else None)"

text \<open>
  When no node carries the current line number, \<open>indexOf(undefined)\<close> is \<open>-1\<close> (the
  program holds no undefined entry while it runs) and the result is the first node.
\<close>

definition getNextLine :: "engine \<Rightarrow> node option" where
  "getNextLine eng =
     at (program eng)
        ((case getCurLine eng of None \<Rightarrow> -1 | Some n \<Rightarrow> indexOf (program eng) n) + 1)"

subsection \<open>Control flow: jumps, loops and subroutine calls\<close>

text \<open>\<open>goto\<close> is called with a line number or, from \<open>loopJump\<close>, with undefined.\<close>

definition goto :: "int option \<Rightarrow> engine \<Rightarrow> engine" where
  "goto l eng =
     (case l of
        Some n \<Rightarrow> eng\<lparr>lineno := n, lineno_undefined := False, jumped := True\<rparr>
      | None \<Rightarrow> eng\<lparr>lineno_undefined := True, jumped := True\<rparr>)"

definition loopStart :: "string \<Rightarrow> int \<Rightarrow> int \<Rightarrow> int \<Rightarrow> engine \<Rightarrow> engine" where
  "loopStart variable value increment mx eng =
     (let e = set_var variable (Num value) eng in
      case getNextLine e of
        None \<Rightarrow> end_run None e
      | Some next \<Rightarrow>
          e\<lparr>loops := (loops e)(variable \<mapsto>
               \<lparr>loop_variable = variable, loop_value = value, loop_increment = increment,
                loop_max = mx, loop_lineno = node_lineno next\<rparr>)\<rparr>)"

text \<open>
  \<open>this.loops[name]\<close> is read with no own-property test. With no descriptor under
  \<open>name\<close>: when \<open>name\<close> names a member of \<open>Object.prototype\<close>, \<open>loop\<close> is that member,
  a built-in object on which \<open>value\<close>, \<open>increment\<close>, \<open>variable\<close>, \<open>max\<close> and \<open>lineno\<close> all
  read undefined. The sum is \<open>NaN\<close>; it is written on the built-in object (outside
  the engine) and under the key \<open>undefined\<close> in the variables; \<open>NaN >= undefined\<close> is
  false, so \<open>goto(undefined)\<close> is called. For any other name \<open>loop\<close> is undefined and
  reading \<open>loop.value\<close> throws a \<open>TypeError\<close> before anything is changed.
\<close>

definition loopJump :: "string \<Rightarrow> engine \<Rightarrow> error + engine" where
  "loopJump name eng =
     (case loops eng name of
        None \<Rightarrow>
          if name \<in> set object_prototype_names
          then Inr (goto None (set_var ''undefined'' NaN eng))
          else Inl (TypeError ''Cannot read properties of undefined (reading value)'')
      | Some l \<Rightarrow>
          (let l' = l\<lparr>loop_value := loop_value l + loop_increment l\<rparr>;
               e = set_var (loop_variable l') (Num (loop_value l'))
                     (eng\<lparr>loops := (loops eng)(name \<mapsto> l')\<rparr>)
           in if loop_value l' \<ge> loop_max l' then Inr e
              else Inr (goto (Some (loop_lineno l')) e)))"

text \<open>
  With an undefined cursor \<open>getNextLine\<close> is the first node, so the sum \<open>lineno + 1\<close> is
  only taken on a number, unless the program is empty; no statement runs on an empty
  program.
\<close>

definition gosub :: "int \<Rightarrow> engine \<Rightarrow> engine" where
  "gosub l eng =
     (case getNextLine eng of
        Some next \<Rightarrow> goto (Some l) (eng\<lparr>stack := stack eng @ [node_lineno next]\<rparr>)
      | None \<Rightarrow> goto (Some l) (eng\<lparr>stack := stack eng @ [lineno eng + 1]\<rparr>))"

definition return :: "engine \<Rightarrow> engine" where
  "return eng =
     (if length (stack eng) = 0
      then end_run (Some (RuntimeError (lineno eng)
             ''There are no function calls to return from'')) eng
      else goto (Some (last (stack eng))) (eng\<lparr>stack := butlast (stack eng)\<rparr>))"

subsection \<open>Running one statement\<close>

fun exec_op :: "op \<Rightarrow> engine \<Rightarrow> error + engine" where
  "exec_op (Set vari v) eng = Inr (set_var vari v eng)"
| "exec_op (SetArray vari sub v) eng = Inr (setArray vari sub v eng)"
| "exec_op (Array name) eng = Inr (array name eng)"
| "exec_op (Pause millis) eng = Inr (pause millis eng)"
| "exec_op (Goto l) eng = Inr (goto (Some l) eng)"
| "exec_op (LoopStart variable value increment mx) eng =
     Inr (loopStart variable value increment mx eng)"
| "exec_op (LoopJump name) eng = loopJump name eng"
| "exec_op (Gosub l) eng = Inr (gosub l eng)"
| "exec_op Return eng = Inr (return eng)"
| "exec_op (Print s) eng = Inr (print s eng)"
| "exec_op Halt eng = Inr (halt eng)"
| "exec_op (End err) eng = Inr (end_run err eng)"
| "exec_op (Throw e) eng = Inl e"

text \<open>
  The calls of a statement run in order. An engine call that ends the run returns
  normally, so the calls after it still happen; an exception abandons the rest and
  leaves the engine as it was when it was thrown.
\<close>

fun run_ops :: "op list \<Rightarrow> engine \<Rightarrow> error option \<times> engine" where
  "run_ops [] eng = (None, eng)"
| "run_ops (c # cs) eng =
     (case exec_op c eng of
        Inl e \<Rightarrow> (Some e, eng)
      | Inr eng' \<Rightarrow> run_ops cs eng')"

definition step :: "engine \<Rightarrow> engine" where
  "step eng =
     (case getCurLine eng of
        None \<Rightarrow> end_run (Some (RuntimeError (lineno eng)
                  (''Cannot find line '' @
                   (if lineno_undefined eng then ''undefined'' else show_int (lineno eng))))) eng
      | Some n \<Rightarrow>
          (case run_ops (node_run n) (eng\<lparr>trace := trace eng @ [node_lineno n]\<rparr>) of
             (None, e) \<Rightarrow> e
           | (Some err, e) \<Rightarrow> end_run (Some err) e))"

subsection \<open>The run loop\<close>

text \<open>
  What a call of \<open>execute\<close> leaves behind when it returns: nothing, or a timer that will
  call \<open>execute\<close> again after the delay.
\<close>

datatype sched = Returned | Timer int

datatype iter = Continue engine | Stop sched engine

text \<open>One pass through the body of \<open>while (true)\<close>.\<close>

definition iteration :: "engine \<Rightarrow> iter" where
  "iteration eng =
     (let e1 = step eng in
      if ended e1 then Stop Returned e1
      else
        (case (if \<not> jumped e1
               then (case getNextLine e1 of
                       None \<Rightarrow> Inl (end_run None e1)
                     | Some next \<Rightarrow>
                         Inr (e1\<lparr>lineno := node_lineno next, lineno_undefined := False\<rparr>))
               else Inr (e1\<lparr>jumped := False\<rparr>)) of
           Inl e \<Rightarrow> Stop Returned e
         | Inr e2 \<Rightarrow>
             (case delay e2 of
                Some d \<Rightarrow>
                  if d \<noteq> 0 then Stop (Timer d) (e2\<lparr>delay := None\<rparr>)
                  else if halted e2 then Stop Returned e2 else Continue e2
              | None \<Rightarrow> if halted e2 then Stop Returned e2 else Continue e2)))"

text \<open>
  The loop may run forever (a \<open>GOTO\<close> to itself), so it carries a budget of passes;
  \<open>None\<close> means the budget ran out before \<open>execute\<close> returned.
\<close>

fun loop_body :: "nat \<Rightarrow> engine \<Rightarrow> (sched \<times> engine) option" where
  "loop_body 0 eng = None"
| "loop_body (Suc k) eng =
     (case iteration eng of
        Stop s e \<Rightarrow> Some (s, e)
      | Continue e \<Rightarrow> loop_body k e)"

definition execute :: "nat \<Rightarrow> engine \<Rightarrow> (sched \<times> engine) option" where
  "execute fuel eng = loop_body fuel (eng\<lparr>halted := False\<rparr>)"

subsection \<open>Loading and starting a program\<close>

definition is_space :: "char \<Rightarrow> bool" where
  "is_space c = (c \<in> set [CHR 0x09, CHR 0x0A, CHR 0x0B, CHR 0x0C, CHR 0x0D, CHR '' '', CHR 0xA0])"

text \<open>\<open>l.trim() !== ''\<close> fails exactly when every character of \<open>l\<close> is white space.\<close>

definition blank :: "string \<Rightarrow> bool" where
  "blank l = list_all is_space l"

fun split_lines :: "string \<Rightarrow> string list" where
  "split_lines [] = [[]]"
| "split_lines (c # cs) =
     (if c = CHR 0x0A then [] # split_lines cs
      else (case split_lines cs of
              l # ls \<Rightarrow> (c # l) # ls
            | [] \<Rightarrow> [[c]]))"

text \<open>The callback of \<open>map\<close>: a line that fails to parse ends the run and yields no node.\<close>

fun parse_all :: "(string \<Rightarrow> error + node) \<Rightarrow> string list \<Rightarrow> engine \<Rightarrow> node list \<times> engine" where
  "parse_all parseLine [] eng = ([], eng)"
| "parse_all parseLine (l # ls) eng =
     (case parseLine l of
        Inl e \<Rightarrow> parse_all parseLine ls (end_run (Some e) eng)
      | Inr n \<Rightarrow> (case parse_all parseLine ls eng of (ns, eng') \<Rightarrow> (n # ns, eng')))"

text \<open>
  The \<open>forEach\<close> over the sorted program: its callback returns after \<open>end\<close> on a
  repeated number, and the iteration goes on with the next node.
\<close>

fun check_repeated :: "node list \<Rightarrow> int list \<Rightarrow> engine \<Rightarrow> engine" where
  "check_repeated [] seen eng = eng"
| "check_repeated (n # ns) seen eng =
     (if node_lineno n \<in> set seen
      then check_repeated ns seen
             (end_run (Some (ParseError (node_lineno n)
                (''Line with number '' @ show_int (node_lineno n) @ '' repeated''))) eng)
      else check_repeated ns (node_lineno n # seen) eng)"

text \<open>
  \<open>run\<close> creates the promise, loads the program and enters \<open>execute\<close>. The sort is
  stable. After a parse failure the undefined entries that JavaScript leaves at the end
  of \<open>this.program\<close> are dropped: the run has returned and the program is not read again.
\<close>

definition run :: "(string \<Rightarrow> error + node) \<Rightarrow> string \<Rightarrow> nat \<Rightarrow> engine \<Rightarrow> (sched \<times> engine) option" where
  "run parseLine text fuel eng0 =
     (case parse_all parseLine (filter (\<lambda>l. \<not> blank l) (split_lines text))
             (eng0\<lparr>onEnd := Pending, ended := False\<rparr>) of
        (ns, eng1) \<Rightarrow>
          (let eng2 = eng1\<lparr>program := sort_key node_lineno ns\<rparr> in
           if ended eng2 then Some (Returned, eng2)
           else
             (let eng3 = check_repeated (program eng2) [] eng2 in
              if length (program eng3) = 0 then Some (Returned, end_run None eng3)
              else execute fuel (eng3\<lparr>lineno := node_lineno (hd (program eng3)),
                                      lineno_undefined := False\<rparr>))))"

subsection \<open>Observing a run\<close>

text \<open>
  What the caller of \<open>run\<close> and the collaborators can see once \<open>run\<close> or \<open>execute\<close>
  has returned: whether a timer is left, the state of the promise, the \<open>ended\<close> flag,
  the console output and the lines whose statements ran.
\<close>

fun observe :: "(sched \<times> engine) option \<Rightarrow> (sched \<times> outcome \<times> bool \<times> string list \<times> int list) option" where
  "observe None = None"
| "observe (Some (s, e)) = Some (s, onEnd e, ended e, console e, trace e)"

text \<open>
  Modelled from the spec: the parser contract is \<open>parseLine(text)\<close>, giving a statement
  or a \<open>ParseError\<close>; \<open>run\<close> takes the parser as a parameter. For the closed examples
  this stand-in knows a handful of source lines and rejects every other line.
\<close>

definition sample_parseLine :: "string \<Rightarrow> error + node" where
  "sample_parseLine l =
     (if l = ''10 A'' then Inr \<lparr>node_lineno = 10, node_run = [Print ''A'']\<rparr>
      else if l = ''10 B'' then Inr \<lparr>node_lineno = 10, node_run = [Print ''B'']\<rparr>
      else if l = ''20 H'' then Inr \<lparr>node_lineno = 20, node_run = [Halt]\<rparr>
      else if l = ''30 C'' then Inr \<lparr>node_lineno = 30, node_run = [Print ''C'']\<rparr>
      else Inl (ParseError 0 ''syntax error''))"

subsection \<open>Auxiliary notions for stating the properties\<close>




text \<open>
  The index of the current line in the program, as \<open>getNextLine\<close> computes it.
\<close>

definition position :: "engine \<Rightarrow> nat" where
  "position eng =
     (case getCurLine eng of
        None \<Rightarrow> 0
      | Some n \<Rightarrow> nat (indexOf (program eng) n))"


text \<open>
  An engine on which \<open>run\<close> has loaded a program, with the cursor on a given line,
  and small programs for the closed examples: a counted loop, a program with sparse
  line numbers, a loop jump on an inherited name followed by a jump, and a subroutine
  call.
\<close>

definition at_line :: "node list \<Rightarrow> int \<Rightarrow> engine" where
  "at_line ps l = new_engine\<lparr>program := ps, lineno := l\<rparr>"

definition for_program :: "node list" where
  "for_program =
     [\<lparr>node_lineno = 10, node_run = [LoopStart ''I'' 0 1 3]\<rparr>,
      \<lparr>node_lineno = 20, node_run = [Print ''*'']\<rparr>,
      \<lparr>node_lineno = 30, node_run = [LoopJump ''I'']\<rparr>]"



definition call_program :: "node list" where
  "call_program =
     [\<lparr>node_lineno = 10, node_run = [Gosub 100]\<rparr>,
      \<lparr>node_lineno = 25, node_run = [End None]\<rparr>,
      \<lparr>node_lineno = 100, node_run = [Return]\<rparr>]"

section \<open>Properties\<close>

subsection \<open>The program store\<close>

lemmas engine_ops =
  set_var_def setArray_def array_def pause_def print_def halt_def goto_def
  loopStart_def loopJump_def gosub_def return_def end_run_def

lemmas sample_eval = at_line_def new_engine_def getCurLine_def getNextLine_def at_def

lemma indexOf_nonneg: "x \<in> set xs \<Longrightarrow> 0 \<le> indexOf xs x"
  by (induction xs) (auto simp: Let_def)

lemma indexOf_nth:
  "x \<in> set xs \<Longrightarrow> nat (indexOf xs x) < length xs \<and> xs ! nat (indexOf xs x) = x"
proof (induction xs)
  case Nil
  then show ?case by simp
next
  case (Cons y ys)
  show ?case
  proof (cases "y = x")
    case True
    then show ?thesis by simp
  next
    case False
    with Cons.prems have mem: "x \<in> set ys" by simp
    from indexOf_nonneg [OF mem] Cons.IH [OF mem] False
    show ?thesis by (simp add: Let_def nat_add_distrib)
  qed
qed

lemma getCurLine_Some:
  "getCurLine eng = Some n \<Longrightarrow>
     n \<in> set (program eng) \<and> node_lineno n = lineno eng \<and> \<not> lineno_undefined eng"
  by (auto simp: getCurLine_def find_Some_iff split: if_splits)


lemma getCurLine_undefined: "lineno_undefined eng \<Longrightarrow> getCurLine eng = None"
  by (simp add: getCurLine_def)


lemma getNextLine_set_var [simp]: "getNextLine (set_var x v eng) = getNextLine eng"
  by (simp add: getNextLine_def getCurLine_def set_var_def split: option.split)

lemma position_props:
  assumes "getCurLine eng = Some n"
  shows "position eng < length (program eng)"
    and "program eng ! position eng = n"
    and "getNextLine eng = (if Suc (position eng) < length (program eng) then Some (program eng ! Suc (position eng)) else None)"
proof -
  from getCurLine_Some [OF assms] have mem: "n \<in> set (program eng)" by simp
  from indexOf_nth [OF mem] assms
  show "position eng < length (program eng)" "program eng ! position eng = n"
    by (simp_all add: position_def)
  from indexOf_nonneg [OF mem] have "0 \<le> indexOf (program eng) n" .
  then have "nat (indexOf (program eng) n + 1) = Suc (nat (indexOf (program eng) n))"
    by simp
  with \<open>0 \<le> indexOf (program eng) n\<close> assms
  show "getNextLine eng = (if Suc (position eng) < length (program eng) then Some (program eng ! Suc (position eng)) else None)"
    by (auto simp add: getNextLine_def at_def position_def)
qed

lemma strict_nth_mono:
  "sorted_wrt (<) (map node_lineno ns) \<Longrightarrow> i < j \<Longrightarrow> j < length ns \<Longrightarrow>
   node_lineno (ns ! i) < node_lineno (ns ! j)"
  using sorted_wrt_nth_less [of "(<)" "map node_lineno ns" i j] by simp

lemma strict_nth_le:
  assumes "sorted_wrt (<) (map node_lineno ns)" "i < length ns" "j < length ns"
    "node_lineno (ns ! i) < node_lineno (ns ! j)"
  shows "i < j"
proof (rule ccontr)
  assume "\<not> i < j"
  then have "j = i \<or> j < i" by auto
  then show False
  proof
    assume "j = i" with assms(4) show False by simp
  next
    assume "j < i"
    from strict_nth_mono [OF assms(1) this assms(2)] assms(4) show False by simp
  qed
qed

text \<open>
  In a program with strictly ascending line numbers, the node after the current one
  carries the least line number above the cursor, and there is none exactly when no
  line number lies above it.
\<close>

lemma getNextLine_successor:
  assumes srt: "sorted_wrt (<) (map node_lineno (program eng))"
    and cur: "getCurLine eng = Some n"
  shows "getNextLine eng = Some m \<Longrightarrow>
           m \<in> set (program eng) \<and> lineno eng < node_lineno m
           \<and> (\<forall>m' \<in> set (program eng). lineno eng < node_lineno m' \<longrightarrow> node_lineno m \<le> node_lineno m')"
    and "getNextLine eng = None \<Longrightarrow> \<forall>m' \<in> set (program eng). node_lineno m' \<le> lineno eng"
proof -
  note pp = position_props [OF cur]
  from getCurLine_Some [OF cur] have ln: "node_lineno n = lineno eng" by simp
  {
    assume nx: "getNextLine eng = Some m"
    with pp(3) have lt: "Suc (position eng) < length (program eng)"
      and m: "m = program eng ! Suc (position eng)" by (auto split: if_splits)
    from strict_nth_mono [OF srt _ lt, of "position eng"] pp(2) ln m
    have gt: "lineno eng < node_lineno m" by simp
    have least: "node_lineno m \<le> node_lineno m'"
      if "m' \<in> set (program eng)" "lineno eng < node_lineno m'" for m'
    proof -
      from that(1) obtain j where j: "j < length (program eng)" "program eng ! j = m'"
        by (auto simp: in_set_conv_nth)
      from strict_nth_le [OF srt pp(1) j(1)] pp(2) ln j(2) that(2)
      have "position eng < j" by simp
      then have "Suc (position eng) = j \<or> Suc (position eng) < j" by auto
      then show ?thesis
      proof
        assume "Suc (position eng) = j" with m j(2) show ?thesis by simp
      next
        assume "Suc (position eng) < j"
        from strict_nth_mono [OF srt this j(1)] m j(2) show ?thesis by simp
      qed
    qed
    from lt m gt least
    show "m \<in> set (program eng) \<and> lineno eng < node_lineno m
           \<and> (\<forall>m' \<in> set (program eng). lineno eng < node_lineno m' \<longrightarrow> node_lineno m \<le> node_lineno m')"
      by auto
  }
  {
    assume nx: "getNextLine eng = None"
    with pp(3) have last: "\<not> Suc (position eng) < length (program eng)"
      by (auto split: if_splits)
    show "\<forall>m' \<in> set (program eng). node_lineno m' \<le> lineno eng"
    proof
      fix m' assume "m' \<in> set (program eng)"
      then obtain j where j: "j < length (program eng)" "program eng ! j = m'"
        by (auto simp: in_set_conv_nth)
      show "node_lineno m' \<le> lineno eng"
      proof (rule ccontr)
        assume "\<not> node_lineno m' \<le> lineno eng"
        then have "node_lineno (program eng ! position eng) < node_lineno (program eng ! j)"
          using pp(2) ln j(2) by simp
        from strict_nth_le [OF srt pp(1) j(1) this] j(1) last show False by simp
      qed
    qed
  }
qed


text \<open>
  \<open>run\<close> sorts the program by line number, so unique numbers come out strictly
  ascending.
\<close>

lemma sort_unique_strictly_ascending:
  "distinct (map node_lineno ns) \<Longrightarrow>
   sorted_wrt (<) (map node_lineno (sort_key node_lineno ns))"
  by (simp add: strict_sorted_iff distinct_map)

subsection \<open>What the calls of a statement leave unchanged\<close>

text \<open>
  No engine call touches the program or the trace; \<open>ended\<close> and \<open>halted\<close> are never
  reset inside a statement, and a settled promise keeps its value.
\<close>

lemma exec_op_frame:
  "exec_op c e = Inr e' \<Longrightarrow> program e' = program e \<and> trace e' = trace e"
  by (cases c) (auto simp: engine_ops Let_def split: option.splits val.splits if_splits)

lemma run_ops_frame:
  "run_ops cs e = (r, e') \<Longrightarrow> program e' = program e \<and> trace e' = trace e"
proof (induction cs arbitrary: e)
  case Nil
  then show ?case by simp
next
  case (Cons c cs)
  show ?case
  proof (cases "exec_op c e")
    case (Inl err)
    with Cons.prems show ?thesis by simp
  next
    case (Inr e1)
    with Cons.prems have "run_ops cs e1 = (r, e')" by simp
    from Cons.IH [OF this] exec_op_frame [OF Inr] show ?thesis by simp
  qed
qed

lemma exec_op_ended:
  "exec_op c e = Inr e' \<Longrightarrow>
     (ended e \<longrightarrow> ended e') \<and> (\<not> ended e' \<longrightarrow> onEnd e' = onEnd e)
     \<and> (onEnd e \<noteq> Pending \<longrightarrow> onEnd e' = onEnd e) \<and> (halted e \<longrightarrow> halted e')"
  by (cases c; cases "onEnd e")
     (auto simp: engine_ops Let_def split: option.splits val.splits if_splits)

lemma run_ops_ended:
  "run_ops cs e = (r, e') \<Longrightarrow>
     (ended e \<longrightarrow> ended e') \<and> (\<not> ended e' \<longrightarrow> onEnd e' = onEnd e)
     \<and> (onEnd e \<noteq> Pending \<longrightarrow> onEnd e' = onEnd e) \<and> (halted e \<longrightarrow> halted e')"
proof (induction cs arbitrary: e)
  case Nil
  then show ?case by simp
next
  case (Cons c cs)
  show ?case
  proof (cases "exec_op c e")
    case (Inl err)
    with Cons.prems show ?thesis by simp
  next
    case (Inr e1)
    with Cons.prems have "run_ops cs e1 = (r, e')" by simp
    from Cons.IH [OF this] exec_op_ended [OF Inr] show ?thesis by auto
  qed
qed





lemma run_ops_append:
  "run_ops (pre @ post) e =
     (case run_ops pre e of
        (None, e1) \<Rightarrow> run_ops post e1
      | (Some err, e1) \<Rightarrow> (Some err, e1))"
  by (induction pre arbitrary: e) (auto split: sum.splits)

lemma run_ops_halt:
  "Halt \<in> set cs \<Longrightarrow> run_ops cs e = (None, e') \<Longrightarrow> halted e'"
proof (induction cs arbitrary: e)
  case Nil
  then show ?case by simp
next
  case (Cons c cs)
  from Cons.prems(2) obtain e1 where c: "exec_op c e = Inr e1" and rest: "run_ops cs e1 = (None, e')"
    by (auto split: sum.splits)
  show ?case
  proof (cases "c = Halt")
    case True
    with c have "halted e1" by (auto simp: halt_def)
    with run_ops_ended [OF rest] show ?thesis by simp
  next
    case False
    with Cons.prems(1) have "Halt \<in> set cs" by simp
    from Cons.IH [OF this rest] show ?thesis .
  qed
qed


subsection \<open>One step and one pass of the run loop\<close>


lemma step_found:
  assumes "getCurLine eng = Some n"
  obtains r e where
    "run_ops (node_run n) (eng\<lparr>trace := trace eng @ [node_lineno n]\<rparr>) = (r, e)"
    "step eng = (case r of None \<Rightarrow> e | Some err \<Rightarrow> end_run (Some err) e)"
proof -
  obtain r e where re: "run_ops (node_run n) (eng\<lparr>trace := trace eng @ [node_lineno n]\<rparr>) = (r, e)"
    by (cases "run_ops (node_run n) (eng\<lparr>trace := trace eng @ [node_lineno n]\<rparr>)")
  with assms have "step eng = (case r of None \<Rightarrow> e | Some err \<Rightarrow> end_run (Some err) e)"
    by (simp add: step_def split: option.split)
  with re that show thesis by blast
qed

lemma step_frame:
  "program (step eng) = program eng
   \<and> (case getCurLine eng of None \<Rightarrow> trace (step eng) = trace eng
      | Some n \<Rightarrow> trace (step eng) = trace eng @ [lineno eng])"
proof (cases "getCurLine eng")
  case None
  then show ?thesis by (simp add: step_def end_run_def)
next
  case (Some n)
  from step_found [OF Some] obtain r e where
    re: "run_ops (node_run n) (eng\<lparr>trace := trace eng @ [node_lineno n]\<rparr>) = (r, e)"
    and st: "step eng = (case r of None \<Rightarrow> e | Some err \<Rightarrow> end_run (Some err) e)"
    by blast
  from run_ops_frame [OF re] getCurLine_Some [OF Some] st Some
  show ?thesis by (cases r) (simp_all add: end_run_def)
qed



lemma iteration_ended: "ended (step eng) \<Longrightarrow> iteration eng = Stop Returned (step eng)"
  by (simp add: iteration_def Let_def)



text \<open>
  A statement that ends the run with one of its calls, or throws: \<open>execute\<close> returns
  after it, whatever fuel is left, and no other statement has run.
\<close>

lemma statement_ends:
  assumes cur: "getCurLine eng = Some n"
    and nr: "node_run n = pre @ c # post"
    and pre: "run_ops pre (eng\<lparr>trace := trace eng @ [node_lineno n]\<rparr>) = (None, e1)"
    and ex: "exec_op c e1 = Inr e2"
    and en: "ended e2" and out: "onEnd e2 \<noteq> Pending"
  shows "loop_body (Suc k) eng = Some (Returned, step eng) \<and> ended (step eng)
         \<and> onEnd (step eng) = onEnd e2 \<and> trace (step eng) = trace eng @ [lineno eng]"
proof -
  obtain r e where post: "run_ops post e2 = (r, e)" by (cases "run_ops post e2")
  with nr pre ex have all: "run_ops (node_run n) (eng\<lparr>trace := trace eng @ [node_lineno n]\<rparr>) = (r, e)"
    by (simp add: run_ops_append)
  from run_ops_ended [OF post] en out have e: "ended e" "onEnd e = onEnd e2" by simp_all
  from cur all have st: "step eng = (case r of None \<Rightarrow> e | Some err \<Rightarrow> end_run (Some err) e)"
    by (simp add: step_def)
  from st e out have 1: "ended (step eng)" and 2: "onEnd (step eng) = onEnd e2"
    by (cases r; cases "onEnd e2"; simp add: end_run_def)+
  from step_frame [of eng] cur have 3: "trace (step eng) = trace eng @ [lineno eng]" by simp
  from iteration_ended [OF 1] 1 2 3 show ?thesis by simp
qed


subsection \<open>Sequential execution\<close>


















subsection \<open>Counted loops\<close>



text \<open>
  On a name with no descriptor that names a member of \<open>Object.prototype\<close>, \<open>loopJump\<close>
  returns normally: it stores \<open>NaN\<close> under the key \<open>undefined\<close> and leaves the cursor
  undefined with the \<open>jumped\<close> flag set.
\<close>

lemma loopJump_inherited:
  "loops e name = None \<Longrightarrow> name \<in> set object_prototype_names \<Longrightarrow>
   loopJump name e =
     Inr (e\<lparr>variables := (variables e)(''undefined'' \<mapsto> NaN),
            lineno_undefined := True, jumped := True\<rparr>)"
  by (simp add: loopJump_def goto_def set_var_def)



text \<open>
  The loop of the example, run as a program: the body at line 20 runs for the values
  0, 1 and 2; the jump at line 30 resumes twice and falls through the third time.
\<close>

lemma for_program_run:
  "observe (execute 7 (at_line for_program 10))
     = Some (Returned, Resolved, True, [''*'', ''*'', ''*''], [10, 20, 30, 20, 30, 20, 30])"
  by code_simp

text \<open>
  The subroutine example, run as a program: line 10 calls line 100, which returns to
  line 25, the line after the call.
\<close>

lemma call_program_run:
  "observe (execute 4 (at_line call_program 10))
     = Some (Returned, Resolved, True, [], [10, 100, 25])"
  by code_simp

subsection \<open>Loading a program\<close>

text \<open>
  When every line parses and the line numbers are unique, \<open>run\<close> enters \<open>execute\<close> with
  the promise pending, the program strictly ascending and the cursor on its first line.
\<close>

lemma check_repeated_unique:
  "distinct (map node_lineno ns) \<Longrightarrow> set seen \<inter> node_lineno ` set ns = {} \<Longrightarrow>
   check_repeated ns seen eng = eng"
proof (induction ns arbitrary: seen)
  case Nil
  then show ?case by simp
next
  case (Cons n ns)
  from Cons.prems have "node_lineno n \<notin> set seen" by auto
  moreover from Cons.prems have "distinct (map node_lineno ns)"
    and "set (node_lineno n # seen) \<inter> node_lineno ` set ns = {}" by auto
  ultimately show ?case using Cons.IH by simp
qed

lemma parse_all_frame:
  "parse_all parseLine ls eng = (ns, eng') \<Longrightarrow>
     \<not> ended eng' \<Longrightarrow> eng' = eng"
proof (induction ls arbitrary: eng ns eng')
  case Nil
  then show ?case by simp
next
  case (Cons l ls)
  show ?case
  proof (cases "parseLine l")
    case (Inl e)
    with Cons.prems have rest: "parse_all parseLine ls (end_run (Some e) eng) = (ns, eng')" by simp
    have "ended (end_run (Some e) eng)" by (simp add: end_run_def)
    with Cons.IH [OF rest] have "ended eng'" by auto
    with Cons.prems(2) show ?thesis by simp
  next
    case (Inr n)
    with Cons.prems obtain ms where rest: "parse_all parseLine ls eng = (ms, eng')" and ns: "ns = n # ms"
      by (auto split: prod.splits)
    from Cons.IH [OF rest Cons.prems(2)] show ?thesis .
  qed
qed

lemma run_starts_execute:
  assumes parsed: "parse_all parseLine (filter (\<lambda>l. \<not> blank l) (split_lines text))
                     (eng0\<lparr>onEnd := Pending, ended := False\<rparr>) = (ns, eng1)"
    and ok: "\<not> ended eng1"
    and uniq: "distinct (map node_lineno ns)"
    and ne: "ns \<noteq> []"
  shows "run parseLine text fuel eng0 =
           execute fuel (eng0\<lparr>onEnd := Pending, ended := False,
                              program := sort_key node_lineno ns,
                              lineno := node_lineno (hd (sort_key node_lineno ns)),
                              lineno_undefined := False\<rparr>)
       \<and> sorted_wrt (<) (map node_lineno (sort_key node_lineno ns))"
proof -
  from parse_all_frame [OF parsed ok] have e1: "eng1 = eng0\<lparr>onEnd := Pending, ended := False\<rparr>"
    by simp
  from uniq have d: "distinct (map node_lineno (sort_key node_lineno ns))"
    by (simp add: distinct_map)
  from ne have ne': "sort_key node_lineno ns \<noteq> []"
    by (metis length_sort list.size(3) length_0_conv)
  from check_repeated_unique [OF d, of "[]"]
  have cr: "\<And>e. check_repeated (sort_key node_lineno ns) [] e = e" by simp
  from parsed e1 ne' cr sort_unique_strictly_ascending [OF uniq]
  show ?thesis by (simp add: run_def Let_def)
qed

text \<open>
  When every line parses and a line number is repeated, the check rejects the promise
  with a \<open>ParseError\<close> for a repeated number, and \<open>run\<close> goes on to \<open>execute\<close>: the
  first statement of the sorted program runs before the loop sees that the run has ended.
\<close>

lemma step_after_end:
  assumes en: "ended eng" and out: "onEnd eng \<noteq> Pending"
  shows "ended (step eng) \<and> onEnd (step eng) = onEnd eng"
proof (cases "getCurLine eng")
  case None
  with en out show ?thesis by (cases "onEnd eng") (simp_all add: step_def end_run_def)
next
  case (Some n)
  from step_found [OF Some] obtain r e where
    re: "run_ops (node_run n) (eng\<lparr>trace := trace eng @ [node_lineno n]\<rparr>) = (r, e)"
    and st: "step eng = (case r of None \<Rightarrow> e | Some err \<Rightarrow> end_run (Some err) e)"
    by blast
  from run_ops_ended [OF re] en out have "ended e" "onEnd e = onEnd eng" by simp_all
  with st out show ?thesis by (cases r; cases "onEnd eng") (simp_all add: end_run_def)
qed

lemma check_repeated_settled:
  "onEnd eng \<noteq> Pending \<Longrightarrow> ended eng \<Longrightarrow> check_repeated ns seen eng = eng"
proof (induction ns arbitrary: seen)
  case Nil
  then show ?case by simp
next
  case (Cons n ns)
  from Cons.prems have "end_run (Some (ParseError (node_lineno n)
          (''Line with number '' @ show_int (node_lineno n) @ '' repeated''))) eng = eng"
    by (cases "onEnd eng") (simp_all add: end_run_def)
  with Cons show ?case by simp
qed

lemma check_repeated_rejects:
  assumes "onEnd eng = Pending"
    and "\<not> distinct (map node_lineno ns) \<or> set seen \<inter> node_lineno ` set ns \<noteq> {}"
  shows "\<exists>d \<in> node_lineno ` set ns.
           check_repeated ns seen eng =
             eng\<lparr>ended := True,
                 onEnd := Rejected (ParseError d (''Line with number '' @ show_int d @ '' repeated''))\<rparr>"
  using assms
proof (induction ns arbitrary: seen)
  case Nil
  then show ?case by simp
next
  case (Cons n ns)
  show ?case
  proof (cases "node_lineno n \<in> set seen")
    case True
    let ?e = "eng\<lparr>ended := True, onEnd := Rejected (ParseError (node_lineno n)
                (''Line with number '' @ show_int (node_lineno n) @ '' repeated''))\<rparr>"
    from Cons.prems(1)
    have "end_run (Some (ParseError (node_lineno n)
            (''Line with number '' @ show_int (node_lineno n) @ '' repeated''))) eng = ?e"
      by (simp add: end_run_def)
    moreover have "check_repeated ns seen ?e = ?e"
      by (rule check_repeated_settled) simp_all
    ultimately show ?thesis using True by simp
  next
    case False
    with Cons.prems(2)
    have "\<not> distinct (map node_lineno ns)
            \<or> set (node_lineno n # seen) \<inter> node_lineno ` set ns \<noteq> {}"
      by auto
    from Cons.IH [OF Cons.prems(1) this] False show ?thesis by auto
  qed
qed

lemma run_repeated_line_runs_one_statement:
  assumes parsed: "parse_all parseLine (filter (\<lambda>l. \<not> blank l) (split_lines text))
                     (eng0\<lparr>onEnd := Pending, ended := False\<rparr>) = (ns, eng1)"
    and ok: "\<not> ended eng1"
    and dup: "\<not> distinct (map node_lineno ns)"
  shows "\<exists>e' d. run parseLine text (Suc k) eng0 = Some (Returned, e')
           \<and> d \<in> node_lineno ` set ns
           \<and> onEnd e' = Rejected (ParseError d (''Line with number '' @ show_int d @ '' repeated''))
           \<and> trace e' = trace eng0 @ [node_lineno (hd (sort_key node_lineno ns))]"
proof -
  let ?P = "sort_key node_lineno ns"
  let ?E2 = "eng0\<lparr>onEnd := Pending, ended := False, program := ?P\<rparr>"
  from parse_all_frame [OF parsed ok] have e1: "eng1 = eng0\<lparr>onEnd := Pending, ended := False\<rparr>" .
  from dup have dupP: "\<not> distinct (map node_lineno ?P)" by (simp add: distinct_map)
  then have ne: "?P \<noteq> []" by auto
  have "onEnd ?E2 = Pending" by simp
  from check_repeated_rejects [OF this, of ?P "[]"] dupP
  obtain d where d: "d \<in> node_lineno ` set ?P"
    and cr: "check_repeated ?P [] ?E2 =
       ?E2\<lparr>ended := True,
            onEnd := Rejected (ParseError d (''Line with number '' @ show_int d @ '' repeated''))\<rparr>"
    by blast
  let ?E = "?E2\<lparr>ended := True,
            onEnd := Rejected (ParseError d (''Line with number '' @ show_int d @ '' repeated'')),
            lineno := node_lineno (hd ?P), lineno_undefined := False, halted := False\<rparr>"
  from parsed e1 cr ne have r: "run parseLine text (Suc k) eng0 = loop_body (Suc k) ?E"
    by (simp add: run_def Let_def execute_def)
  from ne have "getCurLine ?E = Some (hd ?P)"
    by (cases ?P) (simp_all add: getCurLine_def)
  with step_frame [of ?E] have tr: "trace (step ?E) = trace eng0 @ [node_lineno (hd ?P)]" by simp
  from step_after_end [of ?E]
  have en: "ended (step ?E)"
    and out: "onEnd (step ?E) = Rejected (ParseError d (''Line with number '' @ show_int d @ '' repeated''))"
    by simp_all
  from iteration_ended [OF en] r have "run parseLine text (Suc k) eng0 = Some (Returned, step ?E)"
    by simp
  with d tr out show ?thesis by auto
qed

section \<open>The claims\<close>

subsection \<open>Reading variables\<close>




subsection \<open>Repeated line numbers\<close>

text \<open>
  Claim C1. A program text with two statements of the same line number is rejected with
  a \<open>ParseError\<close> naming that number, and no statement runs. The engine does reject,
  but \<open>run\<close> does not return after the check as it does after a parse failure, and
  one statement runs (\<open>run_repeated_line_runs_one_statement\<close> above): on the two-line
  text below the promise is rejected for line 10 and the first statement still runs
  and prints.
\<close>

theorem run_repeated_line_runs_first_statement:
  "observe (run sample_parseLine (''10 A'' @ [CHR 0x0A] @ ''10 B'') 1 new_engine)
     = Some (Returned, Rejected (ParseError 10 ''Line with number 10 repeated''), True,
             [''A''], [10])"
  by code_simp

subsection \<open>Halting\<close>

text \<open>
  Claim C2, as amended. When the statement at the cursor calls \<open>halt()\<close> and neither
  throws, ends the run nor requests a pause, \<open>execute\<close> returns after that statement:
  no further statement runs and no timer is left. The halt does not settle the
  promise: the run is left not ended and pending; only when the statement is the last
  line and made no jump does the run end with success, through the ordinary end of the
  program.
\<close>

theorem halt_returns_without_ending:
  assumes cur: "getCurLine eng = Some n"
    and pend: "onEnd eng = Pending"
    and h: "Halt \<in> set (node_run n)"
    and ok: "run_ops (node_run n) (eng\<lparr>trace := trace eng @ [node_lineno n]\<rparr>) = (None, e1)"
    and ne: "\<not> ended e1"
    and np: "delay e1 = None \<or> delay e1 = Some 0"
  shows "\<exists>e'. loop_body (Suc k) eng = Some (Returned, e')
           \<and> trace e' = trace eng @ [lineno eng]
           \<and> (if \<not> jumped e1 \<and> getNextLine e1 = None
               then ended e' \<and> onEnd e' = Resolved
               else \<not> ended e' \<and> onEnd e' = Pending)"
proof -
  from cur ok have st: "step eng = e1" by (simp add: step_def)
  from run_ops_halt [OF h ok] have hl: "halted e1" .
  from run_ops_ended [OF ok] ne pend have p1: "onEnd e1 = Pending" by simp
  from step_frame [of eng] cur st have tr: "trace e1 = trace eng @ [lineno eng]" by simp
  show ?thesis
  proof (cases "\<not> jumped e1 \<and> getNextLine e1 = None")
    case True
    with st ne have "iteration eng = Stop Returned (end_run None e1)"
      by (simp add: iteration_def Let_def)
    with True tr p1 show ?thesis by (simp add: end_run_def)
  next
    case False
    define e2 where "e2 = (if jumped e1 then e1\<lparr>jumped := False\<rparr>
                           else (case getNextLine e1 of
                                   Some m \<Rightarrow> e1\<lparr>lineno := node_lineno m,
                                                 lineno_undefined := False\<rparr>
                                 | None \<Rightarrow> e1))"
    from False st ne np hl have "iteration eng = Stop Returned e2"
      by (auto simp: iteration_def Let_def e2_def split: option.splits)
    moreover from tr p1 ne
    have "trace e2 = trace eng @ [lineno eng]" "\<not> ended e2" "onEnd e2 = Pending"
      by (simp_all add: e2_def split: option.split)
    ultimately show ?thesis using False by simp
  qed
qed

theorem halt_returns_without_ending_witness:
  "getCurLine (at_line [\<lparr>node_lineno = 20, node_run = [Halt]\<rparr>,
                        \<lparr>node_lineno = 30, node_run = [Print ''C'']\<rparr>] 20)
     = Some \<lparr>node_lineno = 20, node_run = [Halt]\<rparr>
   \<and> (\<exists>e'. loop_body 5 (at_line [\<lparr>node_lineno = 20, node_run = [Halt]\<rparr>,
                                   \<lparr>node_lineno = 30, node_run = [Print ''C'']\<rparr>] 20)
              = Some (Returned, e')
          \<and> trace e' = [20] \<and> \<not> ended e' \<and> onEnd e' = Pending)"
proof -
  let ?N = "\<lparr>node_lineno = 20, node_run = [Halt]\<rparr>"
  let ?E = "at_line [?N, \<lparr>node_lineno = 30, node_run = [Print ''C'']\<rparr>] 20"
  let ?E1 = "?E\<lparr>trace := trace ?E @ [node_lineno ?N], halted := True\<rparr>"
  have cur: "getCurLine ?E = Some ?N" and pend: "onEnd ?E = Pending"
    and vals: "trace ?E = []" "lineno ?E = 20"
    by (simp_all add: sample_eval)
  have h: "Halt \<in> set (node_run ?N)" by simp
  have ok: "run_ops (node_run ?N) (?E\<lparr>trace := trace ?E @ [node_lineno ?N]\<rparr>) = (None, ?E1)"
    by (simp add: halt_def)
  have ne: "\<not> ended ?E1" and np: "delay ?E1 = None \<or> delay ?E1 = Some 0"
    and nx: "getNextLine ?E1 = Some \<lparr>node_lineno = 30, node_run = [Print ''C'']\<rparr>"
    by (simp_all add: sample_eval)
  from halt_returns_without_ending [OF cur pend h ok ne np, of 4] nx cur vals
  show ?thesis by (simp add: numeral_eq_Suc)
qed

text \<open>
  Claim C2, as stated, says that the halt resolves the promise. On the two-line program
  below, whose first statement halts, \<open>run\<close> returns with no timer, the promise still
  pending and the run not ended.
\<close>

theorem halt_leaves_run_pending:
  "observe (run sample_parseLine (''20 H'' @ [CHR 0x0A] @ ''30 C'') 1 new_engine)
     = Some (Returned, Pending, False, [], [20])"
  by code_simp

subsection \<open>Counted loops: the boundary\<close>



subsection \<open>Advancing in line order\<close>



subsection \<open>Subroutine calls\<close>

text \<open>
  Claim C5. When the statement at line \<open>L\<close> calls \<open>gosub(target)\<close>, the number pushed
  on the call stack is that of the statement following \<open>L\<close> in program order, or
  \<open>L + 1\<close> when \<open>L\<close> is the last line; the cursor becomes \<open>target\<close> with the
  \<open>jumped\<close> flag set. A \<open>return\<close> right after it pops that number and moves the cursor
  there, which is above \<open>L\<close>, not \<open>L\<close> itself.
\<close>

theorem gosub_return_address:
  assumes srt: "sorted_wrt (<) (map node_lineno (program eng))"
    and cur: "getCurLine eng = Some n"
  shows "\<exists>ret. gosub target eng = eng\<lparr>stack := stack eng @ [ret], lineno := target, jumped := True\<rparr>
           \<and> return (gosub target eng) = eng\<lparr>lineno := ret, jumped := True\<rparr>
           \<and> lineno eng < ret
           \<and> (case getNextLine eng of
                 Some m \<Rightarrow> ret = node_lineno m \<and> m \<in> set (program eng)
                   \<and> (\<forall>m' \<in> set (program eng). lineno eng < node_lineno m' \<longrightarrow> ret \<le> node_lineno m')
               | None \<Rightarrow> ret = lineno eng + 1
                   \<and> (\<forall>m' \<in> set (program eng). node_lineno m' \<le> lineno eng))"
proof -
  from getCurLine_Some [OF cur] have def: "\<not> lineno_undefined eng" by simp
  have upd: "eng\<lparr>stack := st, lineno := l, lineno_undefined := False, jumped := True\<rparr>
               = eng\<lparr>stack := st, lineno := l, jumped := True\<rparr>" for st l
    using def by (cases eng) simp
  have upd': "eng\<lparr>lineno := l, lineno_undefined := False, jumped := True\<rparr>
               = eng\<lparr>lineno := l, jumped := True\<rparr>" for l
    using def by (cases eng) simp
  show ?thesis
  proof (cases "getNextLine eng")
    case None
    from getNextLine_successor(2) [OF srt cur None] None upd upd'
    show ?thesis
      by (intro exI [of _ "lineno eng + 1"]) (simp add: gosub_def return_def goto_def)
  next
    case (Some m)
    from getNextLine_successor(1) [OF srt cur Some] Some upd upd'
    show ?thesis
      by (intro exI [of _ "node_lineno m"]) (simp add: gosub_def return_def goto_def)
  qed
qed

theorem gosub_return_address_witness:
  "sorted_wrt (<) (map node_lineno (program (at_line call_program 10)))
   \<and> getCurLine (at_line call_program 10) = Some \<lparr>node_lineno = 10, node_run = [Gosub 100]\<rparr>
   \<and> stack (gosub 100 (at_line call_program 10)) = [25]
   \<and> lineno (gosub 100 (at_line call_program 10)) = 100
   \<and> jumped (gosub 100 (at_line call_program 10))
   \<and> lineno (return (gosub 100 (at_line call_program 10))) = 25
   \<and> stack (return (gosub 100 (at_line call_program 10))) = []"
proof -
  let ?E = "at_line call_program 10"
  have srt: "sorted_wrt (<) (map node_lineno (program ?E))"
    and cur: "getCurLine ?E = Some \<lparr>node_lineno = 10, node_run = [Gosub 100]\<rparr>"
    and nx: "getNextLine ?E = Some \<lparr>node_lineno = 25, node_run = [End None]\<rparr>"
    and st: "stack ?E = []"
    by (simp_all add: sample_eval call_program_def)
  from gosub_return_address [OF srt cur, of 100] nx obtain ret where
    "gosub 100 ?E = ?E\<lparr>stack := stack ?E @ [ret], lineno := 100, jumped := True\<rparr>"
    "return (gosub 100 ?E) = ?E\<lparr>lineno := ret, jumped := True\<rparr>" "ret = 25"
    by auto
  with srt cur st show ?thesis by simp
qed

text \<open>
  Claim C6. When a statement calls \<open>return\<close> on an empty call stack in a run that has
  not ended, the call ends the run with a \<open>RuntimeError\<close>, the promise is rejected with
  that error, and \<open>execute\<close> returns with no further statement run.
\<close>

theorem return_on_empty_stack:
  assumes cur: "getCurLine eng = Some n"
    and nr: "node_run n = pre @ Return # post"
    and pre: "run_ops pre (eng\<lparr>trace := trace eng @ [node_lineno n]\<rparr>) = (None, e1)"
    and emp: "stack e1 = []"
    and pend: "onEnd e1 = Pending"
  shows "return e1 = e1\<lparr>ended := True, onEnd := Rejected (RuntimeError (lineno e1)
                        ''There are no function calls to return from'')\<rparr>
       \<and> (\<exists>e'. loop_body (Suc k) eng = Some (Returned, e') \<and> ended e'
              \<and> onEnd e' = Rejected (RuntimeError (lineno e1)
                              ''There are no function calls to return from'')
              \<and> trace e' = trace eng @ [lineno eng])"
proof -
  from emp pend
  have r: "return e1 = e1\<lparr>ended := True, onEnd := Rejected (RuntimeError (lineno e1)
                        ''There are no function calls to return from'')\<rparr>"
    by (simp add: return_def end_run_def)
  have ex: "exec_op Return e1 = Inr (return e1)" by simp
  from r have "ended (return e1)" "onEnd (return e1) \<noteq> Pending" by simp_all
  from statement_ends [OF cur nr pre ex this, of k] r show ?thesis by simp
qed

theorem return_on_empty_stack_witness:
  "getCurLine (at_line [\<lparr>node_lineno = 10, node_run = [Return]\<rparr>,
                        \<lparr>node_lineno = 20, node_run = [Print ''A'']\<rparr>] 10)
     = Some \<lparr>node_lineno = 10, node_run = [Return]\<rparr>
   \<and> (\<exists>e'. loop_body 5 (at_line [\<lparr>node_lineno = 10, node_run = [Return]\<rparr>,
                                   \<lparr>node_lineno = 20, node_run = [Print ''A'']\<rparr>] 10)
              = Some (Returned, e')
          \<and> ended e'
          \<and> onEnd e' = Rejected (RuntimeError 10 ''There are no function calls to return from'')
          \<and> trace e' = [10])"
proof -
  let ?N = "\<lparr>node_lineno = 10, node_run = [Return]\<rparr>"
  let ?E = "at_line [?N, \<lparr>node_lineno = 20, node_run = [Print ''A'']\<rparr>] 10"
  let ?E1 = "?E\<lparr>trace := trace ?E @ [node_lineno ?N]\<rparr>"
  have cur: "getCurLine ?E = Some ?N" by (simp add: sample_eval)
  have nr: "node_run ?N = [] @ Return # []" by simp
  have pre: "run_ops [] (?E\<lparr>trace := trace ?E @ [node_lineno ?N]\<rparr>) = (None, ?E1)" by simp
  have emp: "stack ?E1 = []" and pend: "onEnd ?E1 = Pending" and vals: "lineno ?E1 = 10" "trace ?E = []" "lineno ?E = 10"
    by (simp_all add: sample_eval)
  from return_on_empty_stack [OF cur nr pre emp pend, of 4] cur vals
  show ?thesis by (simp add: numeral_eq_Suc)
qed

subsection \<open>Arrays\<close>



subsection \<open>Loops at the edges\<close>






end
